theory Spec2Isabelle
  imports
    Complex_Main
    "HOL-Library.Multiset"
    "HOL-Library.Char_ord"
    "HOL-Library.List_Lexorder"
    "HOL-Library.Product_Lexorder"
    "HOL-Library.Option_ord"
begin

section \<open>Sale records\<close>

text \<open>
  A calendar date as Python's \<^verbatim>\<open>datetime.date\<close> holds it: year, month and day.
  Python compares dates field by field, year first.
\<close>

record date =
  year :: int
  month :: int
  day :: int

definition date_key :: "date \<Rightarrow> int \<times> int \<times> int" where
  "date_key d = (year d, month d, day d)"

definition date_le :: "date \<Rightarrow> date \<Rightarrow> bool" where
  "date_le a b =
     (year a < year b \<or>
      (year a = year b \<and> (month a < month b \<or> (month a = month b \<and> day a \<le> day b))))"

text \<open>
  One row of the table \<^verbatim>\<open>sales\<close> created by \<^verbatim>\<open>init_database\<close>
  (database.py). The columns \<^verbatim>\<open>id\<close> and \<^verbatim>\<open>product\<close> carry the suffix
  \<open>_col\<close> because \<open>id\<close> and \<open>product\<close> are constants of HOL. Amounts are Python
  floats, taken here as real numbers (rounding is not modelled). The column
  \<^verbatim>\<open>created_at\<close> has no NOT NULL constraint, hence the option; a timestamp is a
  number of seconds.
\<close>

record sale =
  id_col :: int
  order_date :: date
  product_col :: string
  customer :: string
  sales :: real
  profit :: real
  quantity :: int
  created_at :: "nat option"

section \<open>Decimal text\<close>

definition digit_char :: "nat \<Rightarrow> char" where
  "digit_char n = char_of (48 + n mod 10)"

fun str_nat :: "nat \<Rightarrow> string" where
  "str_nat n = (if n < 10 then [digit_char n] else str_nat (n div 10) @ [digit_char (n mod 10)])"

declare str_nat.simps [simp del]

definition str_int :: "int \<Rightarrow> string" where
  "str_int i = (if i < 0 then CHR ''-'' # str_nat (nat (- i)) else str_nat (nat i))"

text \<open>Zero padding on the left up to a width, as the formats \<^verbatim>\<open>%Y\<close> (width 4),
  \<^verbatim>\<open>%m\<close> and \<^verbatim>\<open>%d\<close> (width 2) do; a longer number is not cut.\<close>

definition zero_pad :: "nat \<Rightarrow> string \<Rightarrow> string" where
  "zero_pad w s = replicate (w - length s) CHR ''0'' @ s"

section \<open>The record store (database.py)\<close>

text \<open>
  The state of the database file: the rows of the table \<^verbatim>\<open>sales\<close> and the counter
  that \<^verbatim>\<open>AUTOINCREMENT\<close> keeps in \<^verbatim>\<open>sqlite_sequence\<close> (the largest id ever
  given out). \<^verbatim>\<open>init_database\<close> creates the empty table. The schema's constraints
  are part of the statements below: \<^verbatim>\<open>PRIMARY KEY\<close> (ids are unique),
  \<^verbatim>\<open>NOT NULL\<close> and \<^verbatim>\<open>CONSTRAINT chk_profit CHECK (profit <= sales)\<close>.
\<close>

record store =
  sales_table :: "sale list"
  sqlite_sequence :: int

definition init_database :: store where
  "init_database = \<lparr>sales_table = [], sqlite_sequence = 0\<rparr>"

datatype sql_error = IntegrityError | OperationalError

definition chk_profit :: "sale \<Rightarrow> bool" where
  "chk_profit r = (profit r \<le> sales r)"

text \<open>\<^verbatim>\<open>str.strip()\<close>: leading and trailing whitespace removed. The whitespace
  characters are those of ASCII (tab, line feed, vertical tab, form feed, carriage
  return, the separators 28 to 31 and the space).\<close>

definition is_space :: "char \<Rightarrow> bool" where
  "is_space c = (let n = (of_char c :: nat) in (9 \<le> n \<and> n \<le> 13) \<or> (28 \<le> n \<and> n \<le> 32))"

definition strip :: "string \<Rightarrow> string" where
  "strip s = rev (dropWhile is_space (rev (dropWhile is_space s)))"

text \<open>The id that \<^verbatim>\<open>INSERT\<close> gives a new row: one more than the largest id in
  the table and the largest id ever given out.\<close>

definition next_rowid :: "store \<Rightarrow> int" where
  "next_rowid s = fold max (map id_col (sales_table s)) (sqlite_sequence s) + 1"

text \<open>The \<^verbatim>\<open>INSERT\<close> statement: it fails with an integrity error when the row
  violates the check constraint, and changes nothing then.\<close>

definition sql_insert :: "sale \<Rightarrow> store \<Rightarrow> sql_error + store" where
  "sql_insert r s =
     (if chk_profit r
      then Inr \<lparr>sales_table = sales_table s @ [r], sqlite_sequence = id_col r\<rparr>
      else Inl IntegrityError)"

text \<open>
  \<^verbatim>\<open>add_sale_record(order_date, product, customer, sales, profit, quantity)\<close>, with
  the clock's reading \<open>now\<close> for \<^verbatim>\<open>CURRENT_TIMESTAMP\<close> and the state of the store.
  It returns the pair (success, message) and the new state. The arguments are typed
  as the entry form supplies them: a date, two texts, two floats, an integer.
\<close>

definition add_sale_record ::
  "nat \<Rightarrow> date \<Rightarrow> string \<Rightarrow> string \<Rightarrow> real \<Rightarrow> real \<Rightarrow> int \<Rightarrow> store
     \<Rightarrow> (bool \<times> string) \<times> store" where
  "add_sale_record now order_date' product' customer' sales' profit' quantity' s =
     (if product' = [] \<or> customer' = []
      then ((False, ''Product and Customer are required''), s)
      else if profit' > sales'
      then ((False, ''Profit cannot be greater than sales amount''), s)
      else if quantity' \<le> 0
      then ((False, ''Quantity must be greater than 0''), s)
      else
        (let lastrowid = next_rowid s;
             r = \<lparr>id_col = lastrowid, order_date = order_date',
                  product_col = strip product', customer = strip customer',
                  sales = sales', profit = profit', quantity = quantity',
                  created_at = Some now\<rparr>
         in case sql_insert r s of
              Inr s' \<Rightarrow>
                ((True, ''Sale record #'' @ str_int lastrowid @ '' added successfully''), s')
            | Inl e \<Rightarrow>
                ((False, ''Database error: CHECK constraint failed: chk_profit''), s)))"

text \<open>
  A data frame as far as the callers look at it: the column names and the rows.
  \<^verbatim>\<open>DataFrame.empty\<close> holds when either axis has length 0.
\<close>

record dataframe =
  df_columns :: "string list"
  df_rows :: "sale list"


text \<open>
  \<^verbatim>\<open>get_all_sales()\<close>. The argument is what the connection finds: \<open>None\<close> when
  connecting or reading raises an exception, \<open>Some s\<close> when the store is read in
  state \<open>s\<close>. The query orders by \<^verbatim>\<open>order_date DESC, created_at DESC\<close>; SQL leaves
  the order of rows equal in both open, and the model reverses the stable ascending
  sort. On an exception the function prints the error and returns
  \<^verbatim>\<open>pd.DataFrame()\<close>, a frame with no columns and no rows.
\<close>

definition select_all_sales :: "store \<Rightarrow> sale list" where
  "select_all_sales s =
     rev (sort_key (\<lambda>r. (date_key (order_date r), created_at r)) (sales_table s))"

definition get_all_sales :: "store option \<Rightarrow> dataframe" where
  "get_all_sales db =
     (case db of
        Some s \<Rightarrow>
          \<lparr>df_columns = [''id'', ''order_date'', ''product'', ''customer'', ''sales'',
                          ''profit'', ''quantity'', ''created_at''],
           df_rows = select_all_sales s\<rparr>
      | None \<Rightarrow> \<lparr>df_columns = [], df_rows = []\<rparr>)"

text \<open>\<^verbatim>\<open>delete_sale_record(record_id)\<close>: the \<^verbatim>\<open>DELETE\<close> statement removes the rows
  with that id, and the result is \<^verbatim>\<open>cursor.rowcount > 0\<close>.\<close>

definition delete_sale_record :: "int \<Rightarrow> store \<Rightarrow> bool \<times> store" where
  "delete_sale_record record_id s =
     (let rowcount = length (filter (\<lambda>r. id_col r = record_id) (sales_table s))
      in (rowcount > 0,
          s\<lparr>sales_table := filter (\<lambda>r. id_col r \<noteq> record_id) (sales_table s)\<rparr>))"

text \<open>
  \<^verbatim>\<open>update_sale_record(record_id, **updates)\<close>. One keyword argument is one
  assignment of the \<^verbatim>\<open>SET\<close> clause: a column of the table with a value of the
  column's type or \<^verbatim>\<open>None\<close>, or a name that is no column of the table. The
  list holds the keyword arguments in their order; where a column is named twice
  the rightmost assignment counts.
\<close>

datatype assignment =
    Set_id int
  | Set_order_date "date option"
  | Set_product "string option"
  | Set_customer "string option"
  | Set_sales "real option"
  | Set_profit "real option"
  | Set_quantity "int option"
  | Set_created_at "nat option"
  | Set_unknown string

fun is_column :: "assignment \<Rightarrow> bool" where
  "is_column (Set_unknown k) = False"
| "is_column _ = True"

text \<open>One assignment on one row; \<^verbatim>\<open>None\<close> in a NOT NULL column is an integrity
  error.\<close>

fun assign :: "assignment \<Rightarrow> sale \<Rightarrow> sql_error + sale" where
  "assign (Set_id v) r = Inr (r\<lparr>id_col := v\<rparr>)"
| "assign (Set_order_date (Some v)) r = Inr (r\<lparr>order_date := v\<rparr>)"
| "assign (Set_product (Some v)) r = Inr (r\<lparr>product_col := v\<rparr>)"
| "assign (Set_customer (Some v)) r = Inr (r\<lparr>customer := v\<rparr>)"
| "assign (Set_sales (Some v)) r = Inr (r\<lparr>sales := v\<rparr>)"
| "assign (Set_profit (Some v)) r = Inr (r\<lparr>profit := v\<rparr>)"
| "assign (Set_quantity (Some v)) r = Inr (r\<lparr>quantity := v\<rparr>)"
| "assign (Set_created_at v) r = Inr (r\<lparr>created_at := v\<rparr>)"
| "assign (Set_unknown k) r = Inl OperationalError"
| "assign _ r = Inl IntegrityError"

fun assign_all :: "assignment list \<Rightarrow> sale \<Rightarrow> sql_error + sale" where
  "assign_all [] r = Inr r"
| "assign_all (a # as) r =
     (case assign a r of Inl e \<Rightarrow> Inl e | Inr r' \<Rightarrow> assign_all as r')"

text \<open>The rows after \<^verbatim>\<open>UPDATE sales SET ... WHERE id = ?\<close>: each row with the id
  gets the assignments and must satisfy the check constraint.\<close>

fun update_rows :: "int \<Rightarrow> assignment list \<Rightarrow> sale list \<Rightarrow> sql_error + sale list" where
  "update_rows record_id updates [] = Inr []"
| "update_rows record_id updates (r # rs) =
     (if id_col r = record_id
      then (case assign_all updates r of
              Inl e \<Rightarrow> Inl e
            | Inr r' \<Rightarrow>
                if chk_profit r'
                then (case update_rows record_id updates rs of
                        Inl e \<Rightarrow> Inl e | Inr rs' \<Rightarrow> Inr (r' # rs'))
                else Inl IntegrityError)
      else (case update_rows record_id updates rs of
              Inl e \<Rightarrow> Inl e | Inr rs' \<Rightarrow> Inr (r # rs')))"

text \<open>The \<^verbatim>\<open>UPDATE\<close> statement: an empty \<^verbatim>\<open>SET\<close> clause or an unknown column
  fails when the statement is prepared; a violated constraint (NOT NULL, the check,
  the uniqueness of the primary key) fails the statement and leaves the table as
  it was.\<close>

definition sql_update :: "int \<Rightarrow> assignment list \<Rightarrow> store \<Rightarrow> sql_error + store" where
  "sql_update record_id updates s =
     (if updates = [] \<or> \<not> list_all is_column updates then Inl OperationalError
      else case update_rows record_id updates (sales_table s) of
             Inl e \<Rightarrow> Inl e
           | Inr rows' \<Rightarrow>
               if distinct (map id_col rows') then Inr (s\<lparr>sales_table := rows'\<rparr>)
               else Inl IntegrityError)"

definition update_sale_record :: "int \<Rightarrow> assignment list \<Rightarrow> store \<Rightarrow> bool \<times> store" where
  "update_sale_record record_id updates s =
     (case sql_update record_id updates s of
        Inr s' \<Rightarrow> (True, s')
      | Inl e \<Rightarrow> (False, s))"

text \<open>The states the store can be in: the empty table after \<^verbatim>\<open>init_database\<close>,
  and the state after any call of the three writing functions.\<close>

inductive reachable :: "store \<Rightarrow> bool" where
  reachable_init: "reachable init_database"
| reachable_add:
    "reachable s \<Longrightarrow> reachable (snd (add_sale_record now d p c sa pr q s))"
| reachable_update:
    "reachable s \<Longrightarrow> reachable (snd (update_sale_record record_id updates s))"
| reachable_delete:
    "reachable s \<Longrightarrow> reachable (snd (delete_sale_record record_id s))"

section \<open>Filter application (analytics.py, lines 157--171)\<close>

text \<open>
  The filters the sidebar collects: \<^verbatim>\<open>st.session_state.date_range\<close> is the tuple the
  date widget returns (two dates once a range is chosen, fewer while the user is
  still choosing), \<^verbatim>\<open>selected_product\<close> is a product name or \<^verbatim>\<open>"All"\<close>.
\<close>

record filters =
  date_range :: "date list"
  selected_product :: string
  min_sales :: real
  min_profit :: real

definition apply_filters :: "filters \<Rightarrow> sale list \<Rightarrow> sale list" where
  "apply_filters f df_all =
     (let df = df_all;
          df = (if length (date_range f) = 2
                then (let start_date = date_range f ! 0; end_date = date_range f ! 1
                      in filter (\<lambda>r. date_le start_date (order_date r)
                                      \<and> date_le (order_date r) end_date) df)
                else df);
          df = (if selected_product f \<noteq> ''All''
                then filter (\<lambda>r. product_col r = selected_product f) df
                else df);
          df = filter (\<lambda>r. min_sales f \<le> sales r) df;
          df = filter (\<lambda>r. min_profit f \<le> profit r) df
      in df)"

text \<open>The predicate of the specification's filter contract.\<close>

definition in_date_range :: "date list \<Rightarrow> date \<Rightarrow> bool" where
  "in_date_range dr d =
     (case dr of [start_date, end_date] \<Rightarrow> date_le start_date d \<and> date_le d end_date
               | _ \<Rightarrow> True)"

definition satisfies :: "filters \<Rightarrow> sale \<Rightarrow> bool" where
  "satisfies f r =
     (in_date_range (date_range f) (order_date r)
      \<and> (selected_product f = ''All'' \<or> product_col r = selected_product f)
      \<and> min_sales f \<le> sales r
      \<and> min_profit f \<le> profit r)"

section \<open>Period bucketing (analytics.py, lines 237--261)\<close>

subsection \<open>Formatted dates\<close>

text \<open>\<^verbatim>\<open>strftime('%Y-%m')\<close> and \<^verbatim>\<open>strftime('%Y-%m-%d')\<close> of a date.\<close>

definition strftime_Y_m :: "date \<Rightarrow> string" where
  "strftime_Y_m d = zero_pad 4 (str_int (year d)) @ ''-'' @ zero_pad 2 (str_int (month d))"

definition strftime_Y_m_d :: "date \<Rightarrow> string" where
  "strftime_Y_m_d d = strftime_Y_m d @ ''-'' @ zero_pad 2 (str_int (day d))"

subsection \<open>The proleptic Gregorian calendar\<close>

text \<open>
  The accessors \<^verbatim>\<open>.dt.year\<close>, \<^verbatim>\<open>.dt.month\<close>, \<^verbatim>\<open>.dt.quarter\<close> and
  \<^verbatim>\<open>.dt.isocalendar().week\<close> belong to the date library, not to this repository.
  They are modelled by the calendar arithmetic of Python's \<^verbatim>\<open>datetime\<close> module:
  the ordinal of a date counts days from 0001-01-01 (ordinal 1, a Monday), and the
  ISO week of a date is counted from the Monday of the week that holds the year's
  first Thursday.
\<close>

definition is_leap :: "int \<Rightarrow> bool" where
  "is_leap y = (y mod 4 = 0 \<and> (y mod 100 \<noteq> 0 \<or> y mod 400 = 0))"

definition days_before_year :: "int \<Rightarrow> int" where
  "days_before_year y = (let y1 = y - 1 in y1 * 365 + y1 div 4 - y1 div 100 + y1 div 400)"

definition days_in_month :: "int \<Rightarrow> int \<Rightarrow> int" where
  "days_in_month y m =
     (if m = 2 then (if is_leap y then 29 else 28)
      else if m = 4 \<or> m = 6 \<or> m = 9 \<or> m = 11 then 30 else 31)"

text \<open>The number of days of the year before the first day of a month: the table
  \<^verbatim>\<open>_DAYS_BEFORE_MONTH\<close> (its entry 0 is a placeholder), and one more day after
  February of a leap year.\<close>

definition DAYS_BEFORE_MONTH :: "int list" where
  "DAYS_BEFORE_MONTH = [- 1, 0, 31, 59, 90, 120, 151, 181, 212, 243, 273, 304, 334]"

definition days_before_month :: "int \<Rightarrow> int \<Rightarrow> int" where
  "days_before_month y m =
     DAYS_BEFORE_MONTH ! nat m + (if m > 2 \<and> is_leap y then 1 else 0)"

definition ymd2ord :: "int \<Rightarrow> int \<Rightarrow> int \<Rightarrow> int" where
  "ymd2ord y m d = days_before_year y + days_before_month y m + d"

definition valid_date :: "date \<Rightarrow> bool" where
  "valid_date d =
     (1 \<le> year d \<and> year d \<le> 9999 \<and> 1 \<le> month d \<and> month d \<le> 12
      \<and> 1 \<le> day d \<and> day d \<le> days_in_month (year d) (month d))"

definition isoweek1monday :: "int \<Rightarrow> int" where
  "isoweek1monday y =
     (let firstday = ymd2ord y 1 1;
          firstweekday = (firstday + 6) mod 7;
          week1monday = firstday - firstweekday
      in if firstweekday > 3 then week1monday + 7 else week1monday)"

definition isocalendar_week :: "date \<Rightarrow> int" where
  "isocalendar_week d =
     (let y = year d;
          week1monday = isoweek1monday y;
          today = ymd2ord y (month d) (day d);
          week = (today - week1monday) div 7
      in if week < 0 then (today - isoweek1monday (y - 1)) div 7 + 1
         else if week \<ge> 52 \<and> today \<ge> isoweek1monday (y + 1) then 1
         else week + 1)"

definition quarter :: "date \<Rightarrow> int" where
  "quarter d = (month d - 1) div 3 + 1"

subsection \<open>The period column\<close>

datatype time_period = Daily | Weekly | Monthly | Quarterly | Yearly

text \<open>A value of the grouping column: text for the formatted dates, a number for
  week, quarter and year.\<close>

datatype bucket_key = Text_key string | Int_key int

text \<open>The value of the column \<^verbatim>\<open>period_col\<close> of a record, for each choice of the
  analysis period.\<close>

fun period_key :: "time_period \<Rightarrow> date \<Rightarrow> bucket_key" where
  "period_key Daily d = Text_key (strftime_Y_m_d d)"
| "period_key Weekly d = Int_key (isocalendar_week d)"
| "period_key Monthly d = Text_key (strftime_Y_m d)"
| "period_key Quarterly d = Int_key (quarter d)"
| "period_key Yearly d = Int_key (year d)"

section \<open>Aggregation and derived metrics (analytics.py, lines 183--392)\<close>

text \<open>
  \<^verbatim>\<open>df.groupby(col)\<close>: one group per distinct value of the column, the groups in
  ascending order of that value, each group holding the rows with that value in
  their order in the frame. No record of this model has a missing value in a
  grouping column (the columns are NOT NULL), so no row falls outside the groups.
\<close>

definition groupby :: "(sale \<Rightarrow> 'k::linorder) \<Rightarrow> sale list \<Rightarrow> ('k \<times> sale list) list" where
  "groupby col df = map (\<lambda>k. (k, filter (\<lambda>r. col r = k) df)) (sort (remdups (map col df)))"

text \<open>The rows of \<^verbatim>\<open>trend_data\<close>: the period and the aggregates
  \<^verbatim>\<open>{'sales': 'sum', 'profit': 'sum', 'quantity': 'sum', 'id': 'count'}\<close>, the count
  renamed to \<^verbatim>\<open>transactions\<close>.\<close>

record 'k trend_row =
  period :: 'k
  trend_sales :: real
  trend_profit :: real
  trend_quantity :: int
  transactions :: nat

definition trend_agg :: "'k \<times> sale list \<Rightarrow> 'k trend_row" where
  "trend_agg g =
     \<lparr>period = fst g,
      trend_sales = sum_list (map sales (snd g)),
      trend_profit = sum_list (map profit (snd g)),
      trend_quantity = sum_list (map quantity (snd g)),
      transactions = length (snd g)\<rparr>"

definition trend_by :: "(sale \<Rightarrow> 'k::linorder) \<Rightarrow> sale list \<Rightarrow> 'k trend_row list" where
  "trend_by col df = map trend_agg (groupby col df)"

definition retag :: "('k \<Rightarrow> bucket_key) \<Rightarrow> 'k trend_row \<Rightarrow> bucket_key trend_row" where
  "retag tag r =
     \<lparr>period = tag (period r), trend_sales = trend_sales r, trend_profit = trend_profit r,
      trend_quantity = trend_quantity r, transactions = transactions r\<rparr>"

text \<open>\<^verbatim>\<open>trend_data\<close> for the selected analysis period: the branch chooses the
  period column, and the frame is grouped by it.\<close>

fun trend_data :: "time_period \<Rightarrow> sale list \<Rightarrow> bucket_key trend_row list" where
  "trend_data Daily df =
     map (retag Text_key) (trend_by (\<lambda>r. strftime_Y_m_d (order_date r)) df)"
| "trend_data Weekly df =
     map (retag Int_key) (trend_by (\<lambda>r. isocalendar_week (order_date r)) df)"
| "trend_data Monthly df =
     map (retag Text_key) (trend_by (\<lambda>r. strftime_Y_m (order_date r)) df)"
| "trend_data Quarterly df =
     map (retag Int_key) (trend_by (\<lambda>r. quarter (order_date r)) df)"
| "trend_data Yearly df =
     map (retag Int_key) (trend_by (\<lambda>r. year (order_date r)) df)"

text \<open>The rows of \<^verbatim>\<open>df.groupby('product')\<close> with the sums of sales, profit and
  quantity (\<^verbatim>\<open>product_sales\<close> before its top 10, and \<^verbatim>\<open>profit_analysis\<close>), and of
  \<^verbatim>\<open>df.groupby('customer')\<close> with the sums of sales and profit and the count of
  ids.\<close>

record product_row =
  product_name :: string
  product_sales_sum :: real
  product_profit_sum :: real
  product_quantity_sum :: int


definition product_agg :: "string \<times> sale list \<Rightarrow> product_row" where
  "product_agg g =
     \<lparr>product_name = fst g,
      product_sales_sum = sum_list (map sales (snd g)),
      product_profit_sum = sum_list (map profit (snd g)),
      product_quantity_sum = sum_list (map quantity (snd g))\<rparr>"


definition profit_analysis :: "sale list \<Rightarrow> product_row list" where
  "profit_analysis df = map product_agg (groupby product_col df)"


subsection \<open>Top 10\<close>

text \<open>
  \<^verbatim>\<open>DataFrame.nlargest(n, column)\<close> with its default \<^verbatim>\<open>keep='first'\<close>: the first
  \<open>n\<close> rows in descending order of the column, rows with equal values in their
  order in the frame. The sort is the stable insertion sort of the list library on
  the negated column.
\<close>

definition nlargest :: "nat \<Rightarrow> ('a \<Rightarrow> real) \<Rightarrow> 'a list \<Rightarrow> 'a list" where
  "nlargest n col rows = take n (sort_key (\<lambda>r. - col r) rows)"

definition product_sales :: "sale list \<Rightarrow> product_row list" where
  "product_sales df = nlargest 10 product_sales_sum (map product_agg (groupby product_col df))"


subsection \<open>Ratios\<close>

text \<open>
  A 64-bit float as far as division needs it: a number, or one of the three special
  values. Dividing two columns follows IEEE 754 and raises nothing: a zero divisor
  gives NaN for a zero dividend and an infinity otherwise. Rounding is not modelled.
\<close>

datatype float64 = Finite real | NaN | PosInf | NegInf

definition truediv :: "real \<Rightarrow> real \<Rightarrow> float64" where
  "truediv a b =
     (if b \<noteq> 0 then Finite (a / b)
      else if a = 0 then NaN else if a > 0 then PosInf else NegInf)"

definition times100 :: "float64 \<Rightarrow> float64" where
  "times100 x = (case x of Finite a \<Rightarrow> Finite (a * 100) | NaN \<Rightarrow> NaN
                  | PosInf \<Rightarrow> PosInf | NegInf \<Rightarrow> NegInf)"

text \<open>The key performance indicators (lines 183--188), each guarded by a
  conditional expression.\<close>

definition total_orders :: "sale list \<Rightarrow> nat" where
  "total_orders df = length df"

definition avg_order_value :: "sale list \<Rightarrow> float64" where
  "avg_order_value df =
     (if total_orders df > 0
      then truediv (sum_list (map sales df)) (real (total_orders df)) else Finite 0)"

definition kpi_profit_margin :: "sale list \<Rightarrow> float64" where
  "kpi_profit_margin df =
     (if sum_list (map sales df) > 0
      then times100 (truediv (sum_list (map profit df)) (sum_list (map sales df)))
      else Finite 0)"

definition avg_profit_per_order :: "sale list \<Rightarrow> float64" where
  "avg_profit_per_order df =
     (if total_orders df > 0
      then truediv (sum_list (map profit df)) (real (total_orders df)) else Finite 0)"

text \<open>The ratio columns computed row by row: \<^verbatim>\<open>trend_data['profit_margin']\<close>
  (line 298), \<^verbatim>\<open>product_sales['profit_margin']\<close> (line 331) and the three columns
  of \<^verbatim>\<open>profit_analysis\<close> (lines 390--392).\<close>

definition trend_profit_margin :: "'k trend_row \<Rightarrow> float64" where
  "trend_profit_margin r = times100 (truediv (trend_profit r) (trend_sales r))"

definition profit_margin :: "product_row \<Rightarrow> float64" where
  "profit_margin r = times100 (truediv (product_profit_sum r) (product_sales_sum r))"

definition avg_price :: "product_row \<Rightarrow> float64" where
  "avg_price r = truediv (product_sales_sum r) (real_of_int (product_quantity_sum r))"

definition profit_per_unit :: "product_row \<Rightarrow> float64" where
  "profit_per_unit r = truediv (product_profit_sum r) (real_of_int (product_quantity_sum r))"

section \<open>Notions used in the proofs\<close>

text \<open>What the schema guarantees of every state: the primary key is unique and the
  check constraint holds of every row.\<close>

definition store_inv :: "store \<Rightarrow> bool" where
  "store_inv s =
     (distinct (map id_col (sales_table s)) \<and> (\<forall>r\<in>set (sales_table s). chk_profit r))"

text \<open>The decimal digits of a number at a fixed width, most significant first.\<close>

fun fixed_digits :: "nat \<Rightarrow> nat \<Rightarrow> string" where
  "fixed_digits 0 n = []"
| "fixed_digits (Suc w) n = fixed_digits w (n div 10) @ [digit_char (n mod 10)]"

text \<open>
  The week number as ISO 8601 defines it: weeks begin on Monday, a week belongs to
  the year that holds its Thursday, and its number counts the weeks from the first
  Thursday of that year. The Thursday of a date's week lies in the date's year, the
  year before or the year after.
\<close>

definition iso_week_8601 :: "date \<Rightarrow> int" where
  "iso_week_8601 d =
     (let today = ymd2ord (year d) (month d) (day d);
          thursday = today - (today + 6) mod 7 + 3;
          iso_year = (if thursday < ymd2ord (year d) 1 1 then year d - 1
                      else if thursday \<ge> ymd2ord (year d + 1) 1 1 then year d + 1
                      else year d)
      in (thursday - ymd2ord iso_year 1 1) div 7 + 1)"

section \<open>Example data\<close>

text \<open>The three records of the specification's scenario, and a record with no
  sales amount, as the entry form saves it when its amount fields are left at
  their defaults.\<close>

definition widget_a :: sale where
  "widget_a =
     \<lparr>id_col = 1, order_date = \<lparr>year = 2024, month = 1, day = 1\<rparr>,
      product_col = ''Widget'', customer = ''Asha'', sales = 100, profit = 20,
      quantity = 2, created_at = Some 10\<rparr>"

definition widget_b :: sale where
  "widget_b =
     \<lparr>id_col = 2, order_date = \<lparr>year = 2024, month = 1, day = 2\<rparr>,
      product_col = ''Widget'', customer = ''Ravi'', sales = 200, profit = 50,
      quantity = 3, created_at = Some 20\<rparr>"

definition gadget :: sale where
  "gadget =
     \<lparr>id_col = 3, order_date = \<lparr>year = 2024, month = 2, day = 1\<rparr>,
      product_col = ''Gadget'', customer = ''Asha'', sales = 150, profit = 0,
      quantity = 1, created_at = Some 30\<rparr>"

definition free_sample :: sale where
  "free_sample =
     \<lparr>id_col = 4, order_date = \<lparr>year = 2024, month = 3, day = 5\<rparr>,
      product_col = ''Sample'', customer = ''Ravi'', sales = 0, profit = 0,
      quantity = 1, created_at = Some 40\<rparr>"

definition scenario :: "sale list" where
  "scenario = [widget_a, widget_b, gadget]"



definition scenario_store :: store where
  "scenario_store = \<lparr>sales_table = scenario, sqlite_sequence = 3\<rparr>"

definition january_widgets :: filters where
  "january_widgets =
     \<lparr>date_range = [\<lparr>year = 2024, month = 1, day = 1\<rparr>, \<lparr>year = 2024, month = 1, day = 31\<rparr>],
      selected_product = ''Widget'', min_sales = 150, min_profit = 10\<rparr>"

text \<open>Two Mondays a year apart, and the scenario's two Widget sales moved to
  them.\<close>

definition monday_2023 :: date where
  "monday_2023 = \<lparr>year = 2023, month = 1, day = 30\<rparr>"

definition monday_2024 :: date where
  "monday_2024 = \<lparr>year = 2024, month = 1, day = 29\<rparr>"

definition two_years :: "sale list" where
  "two_years = [widget_a\<lparr>order_date := monday_2023\<rparr>, widget_b\<lparr>order_date := monday_2024\<rparr>]"

text \<open>A candidate whose product is three spaces, and the row it is saved as.\<close>

definition blank_product :: string where
  "blank_product = ''   ''"

definition blank_row :: sale where
  "blank_row =
     \<lparr>id_col = 4, order_date = \<lparr>year = 2024, month = 3, day = 6\<rparr>,
      product_col = [], customer = ''Ravi'', sales = 100, profit = 20,
      quantity = 1, created_at = Some 50\<rparr>"

text \<open>A store after one accepted insert and one update that tries to raise the
  profit above the sales amount.\<close>

definition one_sale_store :: store where
  "one_sale_store =
     snd (update_sale_record 1 [Set_profit (Some 500)]
       (snd (add_sale_record 10 \<lparr>year = 2024, month = 1, day = 1\<rparr> ''Widget'' ''Asha''
               100 20 2 init_database)))"

section \<open>Filtering\<close>

lemma length_two: "length dr = 2 \<longleftrightarrow> (\<exists>a b. dr = [a, b])"
  by (auto simp add: numeral_2_eq_2 length_Suc_conv)

lemma in_date_range_two:
  "length dr = 2 \<Longrightarrow> in_date_range dr d = (date_le (dr ! 0) d \<and> date_le d (dr ! 1))"
  by (auto simp add: length_two in_date_range_def)

lemma in_date_range_other: "length dr \<noteq> 2 \<Longrightarrow> in_date_range dr d"
  by (auto simp add: in_date_range_def split: list.splits)

text \<open>
  Claim C2. The filtered view is the full record set restricted to the records
  that satisfy all four predicates: it holds every record of the full set that is
  inside the date range (when a range of two dates is supplied), has the selected
  product (unless the selector is \<^verbatim>\<open>"All"\<close>; the comparison is equality of the
  texts) and reaches both minimum amounts, and it holds no other record. The
  records keep their order and their multiplicity.
\<close>

theorem filtered_view_exact:
  "apply_filters f df_all = filter (satisfies f) df_all
   \<and> set (apply_filters f df_all) = {r \<in> set df_all. satisfies f r}"
proof -
  have "apply_filters f df_all = filter (satisfies f) df_all"
  proof (cases "length (date_range f) = 2")
    case True
    then show ?thesis
      by (auto simp add: apply_filters_def satisfies_def Let_def in_date_range_two
          intro!: filter_cong)
  next
    case False
    then show ?thesis
      by (auto simp add: apply_filters_def satisfies_def Let_def in_date_range_other
          intro!: filter_cong)
  qed
  then show ?thesis by simp
qed

theorem filtered_view_exact_witness:
  "apply_filters january_widgets scenario = [widget_b]
   \<and> satisfies january_widgets widget_b
   \<and> \<not> satisfies january_widgets widget_a \<and> \<not> satisfies january_widgets gadget"
proof -
  have s: "satisfies january_widgets widget_b" "\<not> satisfies january_widgets widget_a"
    "\<not> satisfies january_widgets gadget"
    by (simp_all add: satisfies_def january_widgets_def in_date_range_def date_le_def
        widget_a_def widget_b_def gadget_def)
  have "apply_filters january_widgets scenario = filter (satisfies january_widgets) scenario"
    using filtered_view_exact[of january_widgets scenario] by (rule conjunct1)
  also have "\<dots> = [widget_b]" by (simp add: scenario_def s)
  finally show ?thesis using s by simp
qed

section \<open>The store's invariant\<close>

lemma update_rows_chk:
  "update_rows record_id updates rs = Inr rs' \<Longrightarrow> \<forall>r\<in>set rs. chk_profit r
     \<Longrightarrow> \<forall>r\<in>set rs'. chk_profit r"
  by (induction rs arbitrary: rs') (auto split: if_splits sum.splits)

lemma update_rows_absent:
  "record_id \<notin> id_col ` set rs \<Longrightarrow> update_rows record_id updates rs = Inr rs"
  by (induction rs) auto

lemma fold_max_ge: "(a::int) \<le> fold max xs a \<and> (\<forall>x\<in>set xs. x \<le> fold max xs a)"
proof (induction xs arbitrary: a)
  case Nil
  show ?case by simp
next
  case (Cons x xs)
  have "max x a \<le> fold max xs (max x a)" "\<forall>z\<in>set xs. z \<le> fold max xs (max x a)"
    using Cons.IH[of "max x a"] by simp_all
  then show ?case by auto
qed

lemma next_rowid_fresh: "r \<in> set (sales_table s) \<Longrightarrow> id_col r < next_rowid s"
  using fold_max_ge[of "sqlite_sequence s" "map id_col (sales_table s)"]
  by (auto simp add: next_rowid_def)

lemma next_rowid_notin: "next_rowid s \<notin> id_col ` set (sales_table s)"
  using next_rowid_fresh[of _ s] by fastforce

lemma add_inv: "store_inv s \<Longrightarrow> store_inv (snd (add_sale_record now d p c sa pr q s))"
  using next_rowid_notin[of s]
  by (auto simp add: add_sale_record_def store_inv_def sql_insert_def chk_profit_def Let_def)

lemma update_inv: "store_inv s \<Longrightarrow> store_inv (snd (update_sale_record record_id updates s))"
  using update_rows_chk[of record_id updates "sales_table s"]
  by (auto simp add: update_sale_record_def sql_update_def store_inv_def
      split: sum.splits if_splits)

lemma delete_inv: "store_inv s \<Longrightarrow> store_inv (snd (delete_sale_record record_id s))"
  by (auto simp add: delete_sale_record_def store_inv_def Let_def distinct_map_filter)

lemma reachable_inv: "reachable s \<Longrightarrow> store_inv s"
proof (induction rule: reachable.induct)
  case reachable_init
  show ?case by (simp add: store_inv_def init_database_def)
qed (simp_all add: add_inv update_inv delete_inv)

lemma one_sale_store_eq: "one_sale_store = \<lparr>sales_table = [widget_a], sqlite_sequence = 1\<rparr>"
  by (simp add: one_sale_store_def update_sale_record_def sql_update_def add_sale_record_def
      sql_insert_def next_rowid_def init_database_def chk_profit_def strip_def is_space_def
      Let_def widget_a_def)

text \<open>
  Claim C7. In every state the store reaches from the empty table by calls of
  \<^verbatim>\<open>add_sale_record\<close>, \<^verbatim>\<open>update_sale_record\<close> and \<^verbatim>\<open>delete_sale_record\<close>, every
  row has a profit no greater than its sales amount.
\<close>

theorem reachable_profit_le_sales:
  "reachable s \<Longrightarrow> \<forall>r\<in>set (sales_table s). profit r \<le> sales r"
  using reachable_inv[of s] by (simp add: store_inv_def chk_profit_def)

theorem reachable_profit_le_sales_witness:
  "reachable one_sale_store \<and> widget_a \<in> set (sales_table one_sale_store)
   \<and> profit widget_a \<le> sales widget_a"
proof -
  have r: "reachable one_sale_store"
    unfolding one_sale_store_def by (intro reachable.intros)
  have m: "widget_a \<in> set (sales_table one_sale_store)" by (simp add: one_sale_store_eq)
  from reachable_profit_le_sales[OF r] m have "profit widget_a \<le> sales widget_a" by (rule bspec)
  with r m show ?thesis by simp
qed

text \<open>
  Claim C10. \<^verbatim>\<open>update_sale_record\<close> does not look at the number of rows the
  statement changed: when no row has the given id, a call whose keyword arguments
  name columns of the table returns \<^verbatim>\<open>True\<close> and the store is as it was. A result
  of \<^verbatim>\<open>True\<close> therefore does not tell that a record was modified.
\<close>

theorem update_sale_record_missing_id:
  assumes "record_id \<notin> id_col ` set (sales_table s)"
    and "updates \<noteq> []" and "list_all is_column updates"
    and "distinct (map id_col (sales_table s))"
  shows "update_sale_record record_id updates s = (True, s)"
  using assms by (simp add: update_sale_record_def sql_update_def update_rows_absent)

theorem update_sale_record_missing_id_witness:
  "7 \<notin> id_col ` set (sales_table scenario_store)
   \<and> distinct (map id_col (sales_table scenario_store))
   \<and> update_sale_record 7 [Set_sales (Some 900), Set_profit (Some 90)] scenario_store
       = (True, scenario_store)"
proof -
  have a: "7 \<notin> id_col ` set (sales_table scenario_store)"
    and d: "distinct (map id_col (sales_table scenario_store))"
    by (simp_all add: scenario_store_def scenario_def widget_a_def widget_b_def gadget_def)
  have "update_sale_record 7 [Set_sales (Some 900), Set_profit (Some 90)] scenario_store
      = (True, scenario_store)"
    by (rule update_sale_record_missing_id[OF a _ _ d]) simp_all
  with a d show ?thesis by simp
qed

section \<open>Ranking\<close>








section \<open>Aggregation\<close>















section \<open>Deleting and reading\<close>

lemma filter_other_ids:
  "distinct (map f xs) \<Longrightarrow> r \<in> set xs \<Longrightarrow> filter (\<lambda>x. f x \<noteq> f r) xs = remove1 r xs"
proof (induction xs)
  case Nil
  then show ?case by simp
next
  case (Cons x xs)
  show ?case
  proof (cases "x = r")
    case True
    have "f r \<notin> f ` set xs" using Cons.prems(1) True by simp
    then have "\<forall>y\<in>set xs. f y \<noteq> f r" by (metis imageI)
    then have "filter (\<lambda>x. f x \<noteq> f r) xs = xs" by simp
    with True show ?thesis by simp
  next
    case False
    with Cons.prems have "r \<in> set xs" "f x \<noteq> f r" by auto
    with Cons show ?thesis using False by simp
  qed
qed

lemma set_select_all_sales: "set (select_all_sales s) = set (sales_table s)"
  by (simp add: select_all_sales_def)

text \<open>
  Claim C9. In a store whose ids are unique (every store the schema admits),
  \<^verbatim>\<open>delete_sale_record\<close> with an id that no row has returns \<^verbatim>\<open>False\<close> and leaves
  the store as it was. With the id of a row \<open>r\<close> it returns \<^verbatim>\<open>True\<close>; the table
  afterwards is the table before without \<open>r\<close>, every other row in place and
  unchanged; what \<^verbatim>\<open>get_all_sales\<close> then reads is every row but \<open>r\<close>; and deleting
  the id once more returns \<^verbatim>\<open>False\<close> and changes nothing.
\<close>

theorem delete_sale_record_spec:
  assumes "distinct (map id_col (sales_table s))"
  shows "(record_id \<notin> id_col ` set (sales_table s)
            \<longrightarrow> delete_sale_record record_id s = (False, s))
       \<and> (\<forall>r\<in>set (sales_table s). id_col r = record_id \<longrightarrow>
            (let s' = snd (delete_sale_record record_id s)
             in fst (delete_sale_record record_id s) = True
                \<and> sales_table s' = remove1 r (sales_table s)
                \<and> mset (sales_table s) = add_mset r (mset (sales_table s'))
                \<and> sqlite_sequence s' = sqlite_sequence s
                \<and> r \<notin> set (df_rows (get_all_sales (Some s')))
                \<and> set (df_rows (get_all_sales (Some s'))) = set (sales_table s) - {r}
                \<and> delete_sale_record record_id s' = (False, s')))"
proof (intro conjI impI ballI)
  assume "record_id \<notin> id_col ` set (sales_table s)"
  then have "\<forall>r\<in>set (sales_table s). id_col r \<noteq> record_id" by auto
  then have "filter (\<lambda>r. id_col r = record_id) (sales_table s) = []"
    "filter (\<lambda>r. id_col r \<noteq> record_id) (sales_table s) = sales_table s"
    by (simp_all add: filter_empty_conv)
  then show "delete_sale_record record_id s = (False, s)"
    by (simp add: delete_sale_record_def)
next
  fix r
  assume r: "r \<in> set (sales_table s)" and i: "id_col r = record_id"
  define s' where "s' = snd (delete_sale_record record_id s)"
  have t: "sales_table s' = remove1 r (sales_table s)"
    using filter_other_ids[OF assms r] i by (simp add: s'_def delete_sale_record_def)
  have d: "distinct (sales_table s)" using assms by (simp add: distinct_map)
  have q: "sqlite_sequence s' = sqlite_sequence s" by (simp add: s'_def delete_sale_record_def)
  have f: "fst (delete_sale_record record_id s) = True"
    using r i by (auto simp add: delete_sale_record_def filter_empty_conv)
  have m: "mset (sales_table s) = add_mset r (mset (sales_table s'))"
    using r by (simp add: t)
  have g: "set (df_rows (get_all_sales (Some s'))) = set (sales_table s) - {r}"
    using d by (simp add: get_all_sales_def set_select_all_sales t)
  have n: "\<forall>x\<in>set (sales_table s'). id_col x \<noteq> record_id"
    by (simp add: s'_def delete_sale_record_def)
  then have "filter (\<lambda>r. id_col r = record_id) (sales_table s') = []"
    "filter (\<lambda>r. id_col r \<noteq> record_id) (sales_table s') = sales_table s'"
    by (simp_all add: filter_empty_conv)
  then have a: "delete_sale_record record_id s' = (False, s')"
    by (simp add: delete_sale_record_def)
  show "let s' = snd (delete_sale_record record_id s)
        in fst (delete_sale_record record_id s) = True
           \<and> sales_table s' = remove1 r (sales_table s)
           \<and> mset (sales_table s) = add_mset r (mset (sales_table s'))
           \<and> sqlite_sequence s' = sqlite_sequence s
           \<and> r \<notin> set (df_rows (get_all_sales (Some s')))
           \<and> set (df_rows (get_all_sales (Some s'))) = set (sales_table s) - {r}
           \<and> delete_sale_record record_id s' = (False, s')"
    unfolding Let_def s'_def[symmetric] using f t m q g a by simp
qed

theorem delete_sale_record_spec_witness:
  "distinct (map id_col (sales_table scenario_store))
   \<and> 9 \<notin> id_col ` set (sales_table scenario_store)
   \<and> delete_sale_record 9 scenario_store = (False, scenario_store)
   \<and> widget_b \<in> set (sales_table scenario_store) \<and> id_col widget_b = 2
   \<and> fst (delete_sale_record 2 scenario_store) = True
   \<and> sales_table (snd (delete_sale_record 2 scenario_store)) = [widget_a, gadget]
   \<and> widget_b \<notin> set (df_rows (get_all_sales (Some (snd (delete_sale_record 2 scenario_store)))))"
proof -
  have d: "distinct (map id_col (sales_table scenario_store))"
    and a: "9 \<notin> id_col ` set (sales_table scenario_store)"
    and b: "widget_b \<in> set (sales_table scenario_store)" and i: "id_col widget_b = 2"
    by (simp_all add: scenario_store_def scenario_def widget_a_def widget_b_def gadget_def)
  have r: "remove1 widget_b (sales_table scenario_store) = [widget_a, gadget]"
    by (simp add: scenario_store_def scenario_def widget_a_def widget_b_def gadget_def)
  from delete_sale_record_spec[OF d, of 9] a
  have "delete_sale_record 9 scenario_store = (False, scenario_store)" by blast
  moreover from delete_sale_record_spec[OF d, of 2] b i
  have "let s' = snd (delete_sale_record 2 scenario_store)
        in fst (delete_sale_record 2 scenario_store) = True
           \<and> sales_table s' = remove1 widget_b (sales_table scenario_store)
           \<and> mset (sales_table scenario_store) = add_mset widget_b (mset (sales_table s'))
           \<and> sqlite_sequence s' = sqlite_sequence scenario_store
           \<and> widget_b \<notin> set (df_rows (get_all_sales (Some s')))
           \<and> set (df_rows (get_all_sales (Some s'))) = set (sales_table scenario_store) - {widget_b}
           \<and> delete_sale_record 2 s' = (False, s')"
    by blast
  ultimately show ?thesis using d a b i by (simp add: Let_def r)
qed




section \<open>Validation before an insert\<close>

text \<open>What \<^verbatim>\<open>add_sale_record\<close> does on a store that can be written: it refuses the
  candidate, leaving the store as it was, exactly when the product or the customer
  is the empty text as passed, the profit exceeds the sales amount, or the quantity
  is not positive. Otherwise it appends one row whose product and customer are the
  stripped texts.\<close>

lemma add_sale_record_outcome:
  "add_sale_record now d p c sa pr q s =
     (if p = [] \<or> c = [] \<or> pr > sa \<or> q \<le> 0
      then ((fst (fst (add_sale_record now d p c sa pr q s)),
             snd (fst (add_sale_record now d p c sa pr q s))), s)
      else ((True, ''Sale record #'' @ str_int (next_rowid s) @ '' added successfully''),
            \<lparr>sales_table = sales_table s @
               [\<lparr>id_col = next_rowid s, order_date = d, product_col = strip p,
                 customer = strip c, sales = sa, profit = pr, quantity = q,
                 created_at = Some now\<rparr>],
             sqlite_sequence = next_rowid s\<rparr>))"
  by (simp add: add_sale_record_def sql_insert_def chk_profit_def Let_def)

lemma add_sale_record_refuses:
  "fst (fst (add_sale_record now d p c sa pr q s)) = False
     \<longleftrightarrow> p = [] \<or> c = [] \<or> pr > sa \<or> q \<le> 0"
  by (simp add: add_sale_record_def sql_insert_def chk_profit_def Let_def)

lemma strip_blank_product: "strip blank_product = []"
  by (simp add: strip_def blank_product_def is_space_def)

lemma scenario_next_rowid: "next_rowid scenario_store = 4"
  by (simp add: next_rowid_def scenario_store_def scenario_def widget_a_def widget_b_def
      gadget_def)

text \<open>
  Claim C4 at a candidate whose product is three spaces, so empty as a trimmed
  label: \<^verbatim>\<open>add_sale_record\<close> tests the text as passed, finds it not empty, and
  saves a row whose product is the empty text.
\<close>

theorem add_sale_record_blank_product:
  "strip blank_product = []
   \<and> add_sale_record 50 \<lparr>year = 2024, month = 3, day = 6\<rparr> blank_product ''Ravi'' 100 20 1
        scenario_store
       = ((True, ''Sale record #4 added successfully''),
          \<lparr>sales_table = scenario @ [blank_row], sqlite_sequence = 4\<rparr>)"
proof -
  have "str_int 4 = ''4''" by code_simp
  moreover have "strip ''Ravi'' = ''Ravi''" by (simp add: strip_def is_space_def)
  moreover have "blank_product \<noteq> []" by (simp add: blank_product_def)
  ultimately show ?thesis
    by (simp add: add_sale_record_outcome strip_blank_product scenario_next_rowid blank_row_def)
       (simp add: scenario_store_def)
qed

section \<open>Decimal text in order\<close>

lemma length_fixed_digits [simp]: "length (fixed_digits w n) = w"
  by (induction w arbitrary: n) simp_all

lemma digit_char_0: "digit_char 0 = CHR ''0''"
  by code_simp

lemma fixed_digits_zero: "fixed_digits w 0 = replicate w CHR ''0''"
  by (induction w) (simp_all add: digit_char_0 replicate_append_same)

lemma length_str_nat: "0 < length (str_nat n)"
  by (subst str_nat.simps) simp

lemma zero_pad_snoc: "s \<noteq> [] \<Longrightarrow> zero_pad (Suc w) (s @ [c]) = zero_pad w s @ [c]"
  by (simp add: zero_pad_def)

lemma zero_pad_str_nat:
  "0 < w \<Longrightarrow> n < 10 ^ w \<Longrightarrow> zero_pad w (str_nat n) = fixed_digits w n"
proof (induction w arbitrary: n)
  case 0
  then show ?case by simp
next
  case (Suc w)
  show ?case
  proof (cases "n < 10")
    case True
    then have "str_nat n = [digit_char n]" by (subst str_nat.simps) simp
    moreover have "n div 10 = 0" "digit_char (n mod 10) = digit_char n" using True by simp_all
    ultimately show ?thesis by (simp add: zero_pad_def fixed_digits_zero)
  next
    case False
    then have e: "str_nat n = str_nat (n div 10) @ [digit_char (n mod 10)]"
      by (subst str_nat.simps) simp
    have "n div 10 < 10 ^ w" using Suc.prems by (simp add: less_mult_imp_div_less mult.commute)
    moreover have "0 < w" using False Suc.prems(2) by (cases w) simp_all
    ultimately have "zero_pad w (str_nat (n div 10)) = fixed_digits w (n div 10)"
      by (rule Suc.IH[rotated])
    moreover have "str_nat (n div 10) \<noteq> []" using length_str_nat[of "n div 10"] by auto
    ultimately show ?thesis by (simp add: e zero_pad_snoc)
  qed
qed

lemma append_less_same_length:
  fixes u u' v v' :: "'a::linorder list"
  assumes "length u = length u'"
  shows "u @ v < u' @ v' \<longleftrightarrow> u < u' \<or> (u = u' \<and> v < v')"
  using assms by (induction u u' rule: list_induct2) auto

lemma digit_char_less: "a < 10 \<Longrightarrow> b < 10 \<Longrightarrow> digit_char a < digit_char b \<longleftrightarrow> a < b"
  by (simp add: digit_char_def less_char_def)

lemma digit_char_eq: "a < 10 \<Longrightarrow> b < 10 \<Longrightarrow> digit_char a = digit_char b \<longleftrightarrow> a = b"
  using digit_char_less[of a b] digit_char_less[of b a] by (metis less_irrefl linorder_neqE_nat)

lemma div_mod_less_iff:
  fixes a b :: nat
  shows "a < b \<longleftrightarrow> a div 10 < b div 10 \<or> (a div 10 = b div 10 \<and> a mod 10 < b mod 10)"
proof -
  define qa ra qb rb where "qa = a div 10" and "ra = a mod 10" and "qb = b div 10"
    and "rb = b mod 10"
  have "a = 10 * qa + ra" "b = 10 * qb + rb" "ra < 10" "rb < 10"
    by (simp_all add: qa_def ra_def qb_def rb_def)
  then have "a < b \<longleftrightarrow> qa < qb \<or> (qa = qb \<and> ra < rb)" by linarith
  then show ?thesis by (simp only: qa_def ra_def qb_def rb_def)
qed

lemma fixed_digits_less_eq:
  "a < 10 ^ w \<Longrightarrow> b < 10 ^ w \<Longrightarrow>
     (fixed_digits w a < fixed_digits w b \<longleftrightarrow> a < b) \<and> (fixed_digits w a = fixed_digits w b \<longleftrightarrow> a = b)"
proof (induction w arbitrary: a b)
  case 0
  then show ?case by simp
next
  case (Suc w)
  have d: "a div 10 < 10 ^ w" "b div 10 < 10 ^ w"
    using Suc.prems by (simp_all add: less_mult_imp_div_less mult.commute)
  note ih = Suc.IH[OF d]
  have m: "a mod 10 < 10" "b mod 10 < 10" by simp_all
  have e: "a = b \<longleftrightarrow> a div 10 = b div 10 \<and> a mod 10 = b mod 10"
    by (metis div_mult_mod_eq)
  show ?case
    using ih digit_char_less[OF m] digit_char_eq[OF m] div_mod_less_iff[of a b] e
    by (simp add: append_less_same_length)
qed
section \<open>Calendar arithmetic\<close>

lemma div_step:
  fixes y k :: int
  assumes "0 < k"
  shows "y div k = (y - 1) div k + (if y mod k = 0 then 1 else 0)"
proof (cases "y mod k = 0")
  case True
  have "y = k * (y div k)" using True by (metis add.right_neutral mult_div_mod_eq)
  then have "y - 1 = k * (y div k - 1) + (k - 1)"
    by (simp add: algebra_simps)
  moreover have "0 \<le> k - 1" "k - 1 < k" using assms by simp_all
  ultimately have "(y - 1) div k = y div k - 1"
    by (rule int_div_pos_eq)
  with True show ?thesis by simp
next
  case False
  have m: "0 \<le> y mod k" "y mod k < k" using assms by simp_all
  have "y - 1 = k * (y div k) + (y mod k - 1)" by simp
  moreover have "0 \<le> y mod k - 1" using m False by linarith
  moreover have "y mod k - 1 < k" using m by linarith
  ultimately have "(y - 1) div k = y div k" by (rule int_div_pos_eq)
  with False show ?thesis by simp
qed

lemma mod_400_100: "(y::int) mod 400 = 0 \<Longrightarrow> y mod 100 = 0"
proof -
  assume "y mod 400 = 0"
  then have "400 dvd y" by (simp add: mod_eq_0_iff_dvd)
  moreover have "(100::int) dvd 400" by simp
  ultimately have "100 dvd y" by (rule dvd_trans[rotated])
  then show ?thesis by (simp add: mod_eq_0_iff_dvd)
qed

lemma mod_100_4: "(y::int) mod 100 = 0 \<Longrightarrow> y mod 4 = 0"
proof -
  assume "y mod 100 = 0"
  then have "100 dvd y" by (simp add: mod_eq_0_iff_dvd)
  moreover have "(4::int) dvd 100" by simp
  ultimately have "4 dvd y" by (rule dvd_trans[rotated])
  then show ?thesis by (simp add: mod_eq_0_iff_dvd)
qed
lemma days_before_next_year: "days_before_year (y + 1) = days_before_year y + (if is_leap y then 366 else 365)"
proof -
  define a b c where "a = (y - 1) div 4" and "b = (y - 1) div 100" and "c = (y - 1) div 400"
  define P4 P100 P400 where "P4 \<longleftrightarrow> y mod 4 = 0" and "P100 \<longleftrightarrow> y mod 100 = 0"
    and "P400 \<longleftrightarrow> y mod 400 = 0"
  define p q r where "p = (if P4 then 1 else 0::int)"
    and "q = (if P100 then 1 else 0::int)" and "r = (if P400 then 1 else 0::int)"
  have e4: "y div 4 = a + p"
    unfolding a_def p_def P4_def by (rule div_step) simp
  have e100: "y div 100 = b + q"
    unfolding b_def q_def P100_def by (rule div_step) simp
  have e400: "y div 400 = c + r"
    unfolding c_def r_def P400_def by (rule div_step) simp
  have imp1: "P400 \<longrightarrow> P100"
    unfolding P100_def P400_def by (rule impI) (rule mod_400_100)
  have imp2: "P100 \<longrightarrow> P4"
    unfolding P4_def P100_def by (rule impI) (rule mod_100_4)
  note imp = imp1 imp2
  have leap: "is_leap y \<longleftrightarrow> P4 \<and> (\<not> P100 \<or> P400)"
    unfolding is_leap_def P4_def P100_def P400_def ..
  have l: "(if is_leap y then 366 else 365) = 365 + p - q + r"
    unfolding leap p_def q_def r_def using imp by (cases P4; cases P100; cases P400; simp)
  have "days_before_year (y + 1) = y * 365 + y div 4 - y div 100 + y div 400"
    unfolding days_before_year_def Let_def add_diff_cancel_right' ..
  moreover have "days_before_year y = (y - 1) * 365 + a - b + c"
    unfolding days_before_year_def Let_def a_def b_def c_def ..
  ultimately show ?thesis unfolding l e4 e100 e400 by (simp only: algebra_simps)
qed


lemma month_cases:
  "1 \<le> m \<Longrightarrow> m \<le> 12 \<Longrightarrow>
   (m::int) = 1 \<or> m = 2 \<or> m = 3 \<or> m = 4 \<or> m = 5 \<or> m = 6 \<or> m = 7 \<or> m = 8 \<or> m = 9 \<or> m = 10
     \<or> m = 11 \<or> m = 12"
  by arith

lemma day_of_year_bounds:
  assumes "valid_date d"
  shows "1 \<le> days_before_month (year d) (month d) + day d"
    and "days_before_month (year d) (month d) + day d \<le> (if is_leap (year d) then 366 else 365)"
proof -
  have m: "1 \<le> month d" "month d \<le> 12" and dd: "1 \<le> day d"
    "day d \<le> days_in_month (year d) (month d)"
    using assms by (simp_all add: valid_date_def)
  from month_cases[OF m] dd
  show "1 \<le> days_before_month (year d) (month d) + day d"
    by (elim disjE) (simp_all add: days_before_month_def DAYS_BEFORE_MONTH_def)
  from month_cases[OF m] dd
  show "days_before_month (year d) (month d) + day d \<le> (if is_leap (year d) then 366 else 365)"
    by (elim disjE)
       (auto simp add: days_before_month_def DAYS_BEFORE_MONTH_def days_in_month_def
          split: if_splits)
qed

lemma firstday: "ymd2ord y 1 1 = days_before_year y + 1"
  by (simp add: ymd2ord_def days_before_month_def DAYS_BEFORE_MONTH_def)

lemma monday_of:
  fixes y :: int
  defines "f \<equiv> ymd2ord y 1 1"
  defines "w \<equiv> isoweek1monday y"
  shows "f - 3 \<le> w" and "w \<le> f + 3" and "\<exists>k. w = 7 * k + 1"
proof -
  define fw where "fw = (f + 6) mod 7"
  define q where "q = (f + 6) div 7"
  have r: "0 \<le> fw" "fw < 7" by (simp_all add: fw_def)
  have fq: "f + 6 = 7 * q + fw" by (simp add: q_def fw_def)
  have w: "w = (if fw > 3 then f - fw + 7 else f - fw)"
    by (simp add: w_def isoweek1monday_def Let_def fw_def f_def)
  show "f - 3 \<le> w" using r by (simp add: w)
  show "w \<le> f + 3" using r by (simp add: w)
  have "w = 7 * q + 1 \<or> w = 7 * (q - 1) + 1" using fq by (simp add: w)
  then show "\<exists>k. w = 7 * k + 1" by blast
qed

lemma div7_bounds:
  fixes a :: int
  assumes "0 \<le> a" "a \<le> 370"
  shows "0 \<le> a div 7" and "a div 7 \<le> 52"
proof -
  show "0 \<le> a div 7" using assms(1) by (simp add: pos_imp_zdiv_nonneg_iff)
  have "a div 7 \<le> 370 div 7" using assms(2) by (rule zdiv_mono1) simp
  then show "a div 7 \<le> 52" by simp
qed

lemma week_range:
  assumes "valid_date d"
  shows "1 \<le> isocalendar_week d \<and> isocalendar_week d \<le> 53"
proof -
  define y where "y = year d"
  define f where "f = ymd2ord y 1 1"
  define t where "t = ymd2ord y (month d) (day d)"
  define f0 where "f0 = ymd2ord (y - 1) 1 1"
  define w0 w1 where "w0 = isoweek1monday (y - 1)" and "w1 = isoweek1monday y"
  have f: "f = days_before_year y + 1" and f0: "f0 = days_before_year (y - 1) + 1"
    by (simp_all add: f_def f0_def firstday)
  have t: "f \<le> t" "t \<le> f + 365"
    using day_of_year_bounds[OF assms]
    by (auto simp add: t_def f ymd2ord_def y_def split: if_splits)
  have ff: "f0 + 365 \<le> f" "f \<le> f0 + 366"
    using days_before_next_year[of "y - 1"] by (auto simp add: f f0 split: if_splits)
  have m1: "f - 3 \<le> w1" "w1 \<le> f + 3" "\<exists>k. w1 = 7 * k + 1"
    using monday_of[of y] by (simp_all add: w1_def f_def)
  have m0: "f0 - 3 \<le> w0" "w0 \<le> f0 + 3" "\<exists>k. w0 = 7 * k + 1"
    using monday_of[of "y - 1"] by (simp_all add: w0_def f0_def)
  have eq: "isocalendar_week d =
      (if (t - w1) div 7 < 0 then (t - w0) div 7 + 1
       else if (t - w1) div 7 \<ge> 52 \<and> t \<ge> isoweek1monday (y + 1) then 1
       else (t - w1) div 7 + 1)"
    by (simp add: isocalendar_week_def Let_def y_def t_def w0_def w1_def)
  show ?thesis
  proof (cases "(t - w1) div 7 < 0")
    case True
    then have lt: "t < w1" by (simp add: pos_imp_zdiv_neg_iff)
    obtain k0 k1 where k: "w0 = 7 * k0 + 1" "w1 = 7 * k1 + 1" using m0(3) m1(3) by blast
    have "7 * k1 - 7 * k0 \<le> 372" using k m0(1,2) m1(1,2) ff by linarith
    then have "k1 - k0 \<le> 53" by linarith
    then have "w1 - w0 \<le> 371" using k by linarith
    then have "t - w0 \<le> 370" using lt by linarith
    moreover have "0 \<le> t - w0" using t ff m0(1,2) by linarith
    ultimately have "0 \<le> (t - w0) div 7" "(t - w0) div 7 \<le> 52"
      by (rule div7_bounds[rotated])+
    with True show ?thesis by (simp add: eq)
  next
    case False
    then have "0 \<le> t - w1" by (simp add: pos_imp_zdiv_neg_iff)
    moreover have "t - w1 \<le> 370" using t m1(1,2) by linarith
    ultimately have "0 \<le> (t - w1) div 7" "(t - w1) div 7 \<le> 52"
      by (rule div7_bounds)+
    with False show ?thesis by (simp add: eq)
  qed
qed

lemma jan4_week1: "isocalendar_week \<lparr>year = y, month = 1, day = 4\<rparr> = 1"
proof -
  define f where "f = ymd2ord y 1 1"
  define w1 where "w1 = isoweek1monday y"
  have t: "ymd2ord y 1 4 = f + 3"
    by (simp add: f_def ymd2ord_def days_before_month_def DAYS_BEFORE_MONTH_def)
  have m1: "f - 3 \<le> w1" "w1 \<le> f + 3"
    using monday_of(1,2)[of y] by (simp_all add: w1_def f_def)
  have "0 \<le> f + 3 - w1" "f + 3 - w1 < 7" using m1 by linarith+
  then have "(f + 3 - w1) div 7 = 0" by (rule div_pos_pos_trivial)
  then show ?thesis
    by (simp add: isocalendar_week_def Let_def t w1_def[symmetric])
qed

text \<open>The week number the date library computes is the week number of ISO 8601.\<close>

lemma div7_offset:
  fixes a r :: int
  assumes "0 \<le> r" and "r < 7"
  shows "(7 * a + r) div 7 = a"
  using assms by simp

lemma monday_before:
  fixes t :: int
  defines "m \<equiv> t - (t + 6) mod 7"
  shows "m \<le> t" and "t < m + 7" and "\<exists>j. m = 7 * j + 1"
proof -
  define r where "r = (t + 6) mod 7"
  define q where "q = (t + 6) div 7"
  have b: "0 \<le> r" "r < 7" by (simp_all add: r_def)
  have e: "t + 6 = 7 * q + r" by (simp add: q_def r_def)
  have m: "m = t - r" by (simp add: m_def r_def)
  show "m \<le> t" "t < m + 7" using b by (simp_all add: m)
  have "m = 7 * (q - 1) + 1" using e by (simp add: m)
  then show "\<exists>j. m = 7 * j + 1" by blast
qed

lemma isocalendar_week_iso_8601:
  assumes "valid_date d"
  shows "isocalendar_week d = iso_week_8601 d"
proof -
  define y where "y = year d"
  define t where "t = ymd2ord y (month d) (day d)"
  define f0 f f2 where "f0 = ymd2ord (y - 1) 1 1" and "f = ymd2ord y 1 1"
    and "f2 = ymd2ord (y + 1) 1 1"
  define w0 w1 w2 where "w0 = isoweek1monday (y - 1)" and "w1 = isoweek1monday y"
    and "w2 = isoweek1monday (y + 1)"
  define m where "m = t - (t + 6) mod 7"
  have fe: "f = days_before_year y + 1" "f0 = days_before_year (y - 1) + 1"
    "f2 = days_before_year (y + 1) + 1"
    by (simp_all add: f_def f0_def f2_def firstday)
  have ff: "f0 + 365 \<le> f" "f \<le> f0 + 366" "f + 365 \<le> f2" "f2 \<le> f + 366"
    using days_before_next_year[of "y - 1"] days_before_next_year[of y]
    by (auto simp add: fe split: if_splits)
  have t: "f \<le> t" "t < f2"
    using day_of_year_bounds[OF assms] days_before_next_year[of y]
    by (auto simp add: t_def fe ymd2ord_def y_def split: if_splits)
  have b0: "f0 - 3 \<le> w0" "w0 \<le> f0 + 3" and b1: "f - 3 \<le> w1" "w1 \<le> f + 3"
    and b2: "f2 - 3 \<le> w2" "w2 \<le> f2 + 3"
    using monday_of(1,2)[of "y - 1"] monday_of(1,2)[of y] monday_of(1,2)[of "y + 1"]
    by (simp_all add: w0_def w1_def w2_def f0_def f_def f2_def)
  obtain k0 k1 k2 where k: "w0 = 7 * k0 + 1" "w1 = 7 * k1 + 1" "w2 = 7 * k2 + 1"
    using monday_of(3)[of "y - 1"] monday_of(3)[of y] monday_of(3)[of "y + 1"]
    unfolding w0_def w1_def w2_def by blast
  have mb: "m \<le> t" "t < m + 7" using monday_before(1,2)[of t] by (simp_all add: m_def)
  obtain j where j: "m = 7 * j + 1" using monday_before(3)[of t] unfolding m_def by blast
  have lhs: "isocalendar_week d =
      (if (t - w1) div 7 < 0 then (t - w0) div 7 + 1
       else if (t - w1) div 7 \<ge> 52 \<and> t \<ge> w2 then 1
       else (t - w1) div 7 + 1)"
    by (simp add: isocalendar_week_def Let_def y_def t_def w0_def w1_def w2_def)
  have rhs: "iso_week_8601 d =
      (if m + 3 < f then (m + 3 - f0) div 7 + 1
       else if m + 3 \<ge> f2 then (m + 3 - f2) div 7 + 1
       else (m + 3 - f) div 7 + 1)"
    by (simp add: iso_week_8601_def Let_def y_def t_def m_def f_def f0_def f2_def)
  have neg: "(t - w1) div 7 < 0 \<longleftrightarrow> t < w1" by (simp add: pos_imp_zdiv_neg_iff)
  consider (before) "m + 3 < f" | (after) "f2 \<le> m + 3" | (within) "f \<le> m + 3" "m + 3 < f2"
    by linarith
  then show ?thesis
  proof cases
    case before
    have "j < k1" using before b1 j k by linarith
    then have "t < w1" using mb j k by linarith
    moreover have "k0 \<le> j" using t ff b0 mb j k by linarith
    have "t - w0 = 7 * (j - k0) + (t - m)" using j k by simp
    then have "(t - w0) div 7 = j - k0" using mb div7_offset[of "t - m" "j - k0"] by simp
    moreover have "m + 3 - f0 = 7 * (j - k0) + (w0 + 3 - f0)" using j k by simp
    then have "(m + 3 - f0) div 7 = j - k0"
      using b0 div7_offset[of "w0 + 3 - f0" "j - k0"] by simp
    ultimately show ?thesis using before by (simp add: lhs rhs neg)
  next
    case after
    have "j = k2" using after mb t b2 j k by linarith
    then have "w2 \<le> t" using mb j k by simp
    have "w1 \<le> t" using after mb ff b1 by linarith
    have "52 \<le> k2 - k1" using ff b1 b2 k by linarith
    then have "364 \<le> t - w1" using \<open>w2 \<le> t\<close> k by linarith
    then have "364 div 7 \<le> (t - w1) div 7" by (rule zdiv_mono1) simp
    then have "52 \<le> (t - w1) div 7" by simp
    moreover have "0 \<le> m + 3 - f2" "m + 3 - f2 < 7" using after mb t by linarith+
    then have "(m + 3 - f2) div 7 = 0" by (rule div_pos_pos_trivial)
    moreover have "\<not> m + 3 < f" using after ff by linarith
    ultimately show ?thesis using after \<open>w2 \<le> t\<close> \<open>w1 \<le> t\<close> by (simp add: lhs rhs neg)
  next
    case within
    have "k1 \<le> j" using within b1 j k by linarith
    then have "w1 \<le> t" using mb j k by linarith
    have "\<not> w2 \<le> t"
    proof
      assume "w2 \<le> t"
      then have "k2 \<le> j" using mb j k by linarith
      then show False using within b2 j k by linarith
    qed
    have "t - w1 = 7 * (j - k1) + (t - m)" using j k by simp
    then have "(t - w1) div 7 = j - k1" using mb div7_offset[of "t - m" "j - k1"] by simp
    moreover have "m + 3 - f = 7 * (j - k1) + (w1 + 3 - f)" using j k by simp
    then have "(m + 3 - f) div 7 = j - k1"
      using b1 div7_offset[of "w1 + 3 - f" "j - k1"] by simp
    ultimately show ?thesis using within \<open>w1 \<le> t\<close> \<open>\<not> w2 \<le> t\<close> by (simp add: lhs rhs neg)
  qed
qed
section \<open>Period keys\<close>

lemma valid_date_ranges:
  assumes "valid_date d"
  shows "nat (year d) < 10 ^ 4" and "nat (month d) < 10 ^ 2" and "nat (day d) < 10 ^ 2"
    and "str_int (year d) = str_nat (nat (year d))"
    and "str_int (month d) = str_nat (nat (month d))"
    and "str_int (day d) = str_nat (nat (day d))"
proof -
  have y: "1 \<le> year d" "year d \<le> 9999" and m: "1 \<le> month d" "month d \<le> 12"
    and dd: "1 \<le> day d" "day d \<le> days_in_month (year d) (month d)"
    using assms by (simp_all add: valid_date_def)
  have "days_in_month (year d) (month d) \<le> 31" by (simp add: days_in_month_def)
  with dd have d31: "day d \<le> 31" by linarith
  show "nat (year d) < 10 ^ 4" using y by simp
  show "nat (month d) < 10 ^ 2" using m by simp
  show "nat (day d) < 10 ^ 2" using d31 by simp
  show "str_int (year d) = str_nat (nat (year d))" using y by (simp add: str_int_def)
  show "str_int (month d) = str_nat (nat (month d))" using m by (simp add: str_int_def)
  show "str_int (day d) = str_nat (nat (day d))" using dd by (simp add: str_int_def)
qed

lemma strftime_Y_m_digits:
  assumes "valid_date d"
  shows "strftime_Y_m d = fixed_digits 4 (nat (year d)) @ ''-'' @ fixed_digits 2 (nat (month d))"
  using valid_date_ranges[OF assms]
  by (simp add: strftime_Y_m_def zero_pad_str_nat)

lemma strftime_Y_m_d_digits:
  assumes "valid_date d"
  shows "strftime_Y_m_d d =
     fixed_digits 4 (nat (year d)) @ ''-'' @ fixed_digits 2 (nat (month d)) @ ''-''
       @ fixed_digits 2 (nat (day d))"
  using valid_date_ranges[OF assms]
  by (simp add: strftime_Y_m_d_def strftime_Y_m_digits[OF assms] zero_pad_str_nat)

lemma fixed_digits_le:
  assumes "a < 10 ^ w" and "b < 10 ^ w"
  shows "fixed_digits w a < fixed_digits w b \<longleftrightarrow> a < b"
    and "fixed_digits w a = fixed_digits w b \<longleftrightarrow> a = b"
  using fixed_digits_less_eq[OF assms] by simp_all

lemma strftime_Y_m_less:
  assumes "valid_date d" and "valid_date d'"
  shows "strftime_Y_m d < strftime_Y_m d'
     \<longleftrightarrow> year d < year d' \<or> (year d = year d' \<and> month d < month d')"
    and "strftime_Y_m d = strftime_Y_m d' \<longleftrightarrow> year d = year d' \<and> month d = month d'"
proof -
  note r = valid_date_ranges(1,2)[OF assms(1)] and r' = valid_date_ranges(1,2)[OF assms(2)]
  have p: "1 \<le> year d" "1 \<le> year d'" "1 \<le> month d" "1 \<le> month d'"
    using assms by (simp_all add: valid_date_def)
  have y: "nat (year d) < nat (year d') \<longleftrightarrow> year d < year d'"
    "nat (year d) = nat (year d') \<longleftrightarrow> year d = year d'"
    "nat (month d) < nat (month d') \<longleftrightarrow> month d < month d'"
    "nat (month d) = nat (month d') \<longleftrightarrow> month d = month d'"
    using p by linarith+
  show "strftime_Y_m d < strftime_Y_m d'
     \<longleftrightarrow> year d < year d' \<or> (year d = year d' \<and> month d < month d')"
    unfolding strftime_Y_m_digits[OF assms(1)] strftime_Y_m_digits[OF assms(2)]
    using p
    by (simp add: append_less_same_length fixed_digits_le[OF r(1) r'(1)]
        fixed_digits_le[OF r(2) r'(2)] y)
  show "strftime_Y_m d = strftime_Y_m d' \<longleftrightarrow> year d = year d' \<and> month d = month d'"
    unfolding strftime_Y_m_digits[OF assms(1)] strftime_Y_m_digits[OF assms(2)]
    using p
    by (simp add: fixed_digits_le[OF r(1) r'(1)] fixed_digits_le[OF r(2) r'(2)] y)
qed

lemma strftime_Y_m_d_le:
  assumes "valid_date d" and "valid_date d'"
  shows "strftime_Y_m_d d \<le> strftime_Y_m_d d' \<longleftrightarrow> date_le d d'"
proof -
  note r = valid_date_ranges(3)[OF assms(1)] and r' = valid_date_ranges(3)[OF assms(2)]
  have p: "1 \<le> day d" "1 \<le> day d'" using assms by (simp_all add: valid_date_def)
  have y: "nat (day d) < nat (day d') \<longleftrightarrow> day d < day d'"
    "nat (day d) = nat (day d') \<longleftrightarrow> day d = day d'"
    using p by linarith+
  have l: "length (strftime_Y_m d) = length (strftime_Y_m d')"
    by (simp add: strftime_Y_m_digits assms)
  have z: "zero_pad 2 (str_nat (nat (day d))) = fixed_digits 2 (nat (day d))"
    "zero_pad 2 (str_nat (nat (day d'))) = fixed_digits 2 (nat (day d'))"
    using r r' by (simp_all only: zero_pad_str_nat zero_less_numeral)
  have "strftime_Y_m_d d < strftime_Y_m_d d' \<longleftrightarrow>
      strftime_Y_m d < strftime_Y_m d'
      \<or> (strftime_Y_m d = strftime_Y_m d' \<and> day d < day d')"
    unfolding strftime_Y_m_d_def valid_date_ranges(6)[OF assms(1)]
      valid_date_ranges(6)[OF assms(2)] z
    using p by (simp add: append_less_same_length[OF l] fixed_digits_le[OF r r'] y)
  moreover have "strftime_Y_m_d d = strftime_Y_m_d d' \<longleftrightarrow>
      strftime_Y_m d = strftime_Y_m d' \<and> day d = day d'"
    unfolding strftime_Y_m_d_def valid_date_ranges(6)[OF assms(1)]
      valid_date_ranges(6)[OF assms(2)] z
    using l p by (simp add: fixed_digits_le[OF r r'] y)
  ultimately show ?thesis
    unfolding order_le_less strftime_Y_m_less[OF assms] date_le_def by auto
qed

lemma quarter_range:
  assumes "1 \<le> month d" and "month d \<le> 12"
  shows "quarter d = (if month d \<le> 3 then 1 else if month d \<le> 6 then 2
                      else if month d \<le> 9 then 3 else 4)"
  using month_cases[OF assms] by (elim disjE) (simp_all add: quarter_def)

text \<open>
  Claim C5. For every record (its date \<open>d\<close> a date of the calendar): the weekly key
  is the ISO week number of \<open>d\<close>, the number ISO 8601 defines, from 1 to 53 and
  carrying no year, and
  the fourth of January of every year \<open>y\<close> has the weekly key 1, so records of
  different years share a bucket; the quarterly key is the quarter, a number from
  1 to 4 that depends on the month alone; the monthly key is the text of the four
  digits of the year, a hyphen and the two digits of the month, and the order of
  these texts is the order of (year, month); the yearly key is the year; the daily
  key is the ISO date, year, month and day in digits with hyphens between, and
  the order of these texts is the order of the dates.
\<close>

theorem period_bucket_keys:
  assumes "valid_date d" and "valid_date d'"
  shows "period_key Weekly d = Int_key (isocalendar_week d)
     \<and> isocalendar_week d = iso_week_8601 d
     \<and> 1 \<le> isocalendar_week d \<and> isocalendar_week d \<le> 53
     \<and> period_key Weekly \<lparr>year = y, month = 1, day = 4\<rparr> = Int_key 1
     \<and> period_key Quarterly d = Int_key (quarter d)
     \<and> 1 \<le> quarter d \<and> quarter d \<le> 4
     \<and> quarter d = (if month d \<le> 3 then 1 else if month d \<le> 6 then 2
                      else if month d \<le> 9 then 3 else 4)
     \<and> (month d = month d' \<longrightarrow> period_key Quarterly d = period_key Quarterly d')
     \<and> period_key Monthly d
         = Text_key (fixed_digits 4 (nat (year d)) @ ''-'' @ fixed_digits 2 (nat (month d)))
     \<and> (strftime_Y_m d < strftime_Y_m d'
          \<longleftrightarrow> year d < year d' \<or> (year d = year d' \<and> month d < month d'))
     \<and> (period_key Monthly d = period_key Monthly d'
          \<longleftrightarrow> year d = year d' \<and> month d = month d')
     \<and> period_key Yearly d = Int_key (year d)
     \<and> period_key Daily d
         = Text_key (fixed_digits 4 (nat (year d)) @ ''-'' @ fixed_digits 2 (nat (month d))
                      @ ''-'' @ fixed_digits 2 (nat (day d)))
     \<and> (strftime_Y_m_d d \<le> strftime_Y_m_d d' \<longleftrightarrow> date_le d d')"
proof -
  have m: "1 \<le> month d" "month d \<le> 12" using assms(1) by (simp_all add: valid_date_def)
  note q = quarter_range[OF m]
  have q14: "1 \<le> quarter d" "quarter d \<le> 4" unfolding q by simp_all
  have qq: "month d = month d' \<longrightarrow> period_key Quarterly d = period_key Quarterly d'"
    by (simp add: quarter_def)
  have w: "period_key Weekly \<lparr>year = y, month = 1, day = 4\<rparr> = Int_key 1"
    by (simp add: jan4_week1)
  have mo: "period_key Monthly d
      = Text_key (fixed_digits 4 (nat (year d)) @ ''-'' @ fixed_digits 2 (nat (month d)))"
    by (simp only: period_key.simps strftime_Y_m_digits[OF assms(1)])
  have da: "period_key Daily d
      = Text_key (fixed_digits 4 (nat (year d)) @ ''-'' @ fixed_digits 2 (nat (month d))
                   @ ''-'' @ fixed_digits 2 (nat (day d)))"
    by (simp only: period_key.simps strftime_Y_m_d_digits[OF assms(1)])
  have me: "period_key Monthly d = period_key Monthly d'
      \<longleftrightarrow> year d = year d' \<and> month d = month d'"
    using strftime_Y_m_less(2)[OF assms] by simp
  show ?thesis
    using week_range[OF assms(1)] isocalendar_week_iso_8601[OF assms(1)] q q14 qq w mo da me
      strftime_Y_m_less(1)[OF assms]
      strftime_Y_m_d_le[OF assms]
    by (simp only: period_key.simps simp_thms)
qed

lemma mondays_valid: "valid_date monday_2023" "valid_date monday_2024"
  by (simp_all add: valid_date_def monday_2023_def monday_2024_def days_in_month_def)

lemma mondays_week: "isocalendar_week monday_2023 = 5" "isocalendar_week monday_2024 = 5"
  by code_simp+

theorem period_bucket_keys_witness:
  "valid_date monday_2023 \<and> valid_date monday_2024
   \<and> year monday_2023 \<noteq> year monday_2024
   \<and> period_key Weekly monday_2023 = Int_key 5
   \<and> period_key Weekly monday_2023 = period_key Weekly monday_2024
   \<and> period_key Quarterly monday_2023 = period_key Quarterly monday_2024
   \<and> period_key Monthly monday_2023 = Text_key ''2023-01''
   \<and> period_key Monthly monday_2024 = Text_key ''2024-01''
   \<and> strftime_Y_m monday_2023 < strftime_Y_m monday_2024
   \<and> period_key Daily monday_2024 = Text_key ''2024-01-29''
   \<and> strftime_Y_m_d monday_2023 \<le> strftime_Y_m_d monday_2024
   \<and> period_key Yearly monday_2024 = Int_key 2024
   \<and> map period (trend_data Weekly two_years) = [Int_key 5]
   \<and> map transactions (trend_data Weekly two_years) = [2]"
proof -
  note v = mondays_valid
  have w: "map period (trend_data Weekly two_years) = [Int_key 5]"
    "map transactions (trend_data Weekly two_years) = [2]"
    by (simp_all add: trend_by_def groupby_def two_years_def mondays_week retag_def
        trend_agg_def)
  note t = period_bucket_keys[OF v, of 2024] and t' = period_bucket_keys[OF v(2) v(1), of 2023]
  have f4: "fixed_digits 4 2023 = ''2023''" "fixed_digits 4 2024 = ''2024''"
    and f2: "fixed_digits 2 (Suc 0) = ''01''" "fixed_digits 2 29 = ''29''"
    by code_simp+
  have e: "year monday_2023 = 2023" "year monday_2024 = 2024" "month monday_2023 = 1"
    "month monday_2024 = 1" "day monday_2024 = 29" "day monday_2023 = 30"
    by (simp_all add: monday_2023_def monday_2024_def)
  from t have "period_key Monthly monday_2023
      = Text_key (fixed_digits 4 (nat (year monday_2023)) @ ''-''
                   @ fixed_digits 2 (nat (month monday_2023)))"
    by blast
  then have a: "period_key Monthly monday_2023 = Text_key ''2023-01''"
    by (simp add: e f4 f2)
  from t' have "period_key Monthly monday_2024
      = Text_key (fixed_digits 4 (nat (year monday_2024)) @ ''-''
                   @ fixed_digits 2 (nat (month monday_2024)))"
    by blast
  then have b: "period_key Monthly monday_2024 = Text_key ''2024-01''"
    by (simp add: e f4 f2)
  from t' have "period_key Daily monday_2024
      = Text_key (fixed_digits 4 (nat (year monday_2024)) @ ''-''
                   @ fixed_digits 2 (nat (month monday_2024)) @ ''-''
                   @ fixed_digits 2 (nat (day monday_2024)))"
    by blast
  then have c: "period_key Daily monday_2024 = Text_key ''2024-01-29''"
    by (simp add: e f4 f2)
  from t have "strftime_Y_m monday_2023 < strftime_Y_m monday_2024
      \<longleftrightarrow> year monday_2023 < year monday_2024
          \<or> (year monday_2023 = year monday_2024 \<and> month monday_2023 < month monday_2024)"
    by blast
  then have d: "strftime_Y_m monday_2023 < strftime_Y_m monday_2024"
    by (simp add: e)
  from t have "strftime_Y_m_d monday_2023 \<le> strftime_Y_m_d monday_2024
      \<longleftrightarrow> date_le monday_2023 monday_2024"
    by blast
  then have g: "strftime_Y_m_d monday_2023 \<le> strftime_Y_m_d monday_2024"
    by (simp add: e date_le_def)
  from t have "month monday_2023 = month monday_2024
      \<longrightarrow> period_key Quarterly monday_2023 = period_key Quarterly monday_2024"
    by blast
  then have h: "period_key Quarterly monday_2023 = period_key Quarterly monday_2024"
    by (simp add: e)
  show ?thesis
    using v a b c d g h w by (simp add: mondays_week e)
qed

section \<open>Ratios with a zero denominator\<close>

text \<open>The three indicators of the summary are guarded: with a zero denominator
  they are 0.\<close>

lemma kpi_zero_guard:
  "sum_list (map sales df) = 0 \<Longrightarrow> kpi_profit_margin df = Finite 0"
  "total_orders df = 0 \<Longrightarrow> avg_order_value df = Finite 0"
  "total_orders df = 0 \<Longrightarrow> avg_profit_per_order df = Finite 0"
  by (simp_all add: kpi_profit_margin_def avg_order_value_def avg_profit_per_order_def)

text \<open>The ratio columns are not: with a zero denominator they are never 0.\<close>

lemma row_ratio_zero_denominator:
  "trend_sales r = 0 \<Longrightarrow> trend_profit_margin r \<in> {NaN, PosInf, NegInf}"
  "product_sales_sum p = 0 \<Longrightarrow> profit_margin p \<in> {NaN, PosInf, NegInf}"
  "product_quantity_sum p = 0 \<Longrightarrow> avg_price p \<in> {NaN, PosInf, NegInf}"
  "product_quantity_sum p = 0 \<Longrightarrow> profit_per_unit p \<in> {NaN, PosInf, NegInf}"
  by (simp_all add: trend_profit_margin_def profit_margin_def avg_price_def
      profit_per_unit_def truediv_def times100_def)

lemma free_sample_month: "strftime_Y_m (order_date free_sample) = ''2024-03''"
  by code_simp

text \<open>
  Claim C1 at a record saved with the entry form's default amounts (sales 0,
  profit 0), which \<^verbatim>\<open>add_sale_record\<close> accepts: in the view that holds this record
  alone, the profit margin of its monthly bucket and of its product row is NaN,
  not 0, while the profit margin of the summary is 0.
\<close>

theorem zero_sales_profit_margin:
  "add_sale_record 40 \<lparr>year = 2024, month = 3, day = 5\<rparr> ''Sample'' ''Ravi'' 0 0 1
      scenario_store
     = ((True, ''Sale record #4 added successfully''),
        \<lparr>sales_table = scenario @ [free_sample], sqlite_sequence = 4\<rparr>)
   \<and> map trend_sales (trend_data Monthly [free_sample]) = [0]
   \<and> map trend_profit_margin (trend_data Monthly [free_sample]) = [NaN]
   \<and> map profit_margin (profit_analysis [free_sample]) = [NaN]
   \<and> map profit_margin (product_sales [free_sample]) = [NaN]
   \<and> kpi_profit_margin [free_sample] = Finite 0"
proof -
  have "str_int 4 = ''4''" by code_simp
  moreover have "strip ''Ravi'' = ''Ravi''" "strip ''Sample'' = ''Sample''"
    by (simp_all add: strip_def is_space_def)
  ultimately have a: "add_sale_record 40 \<lparr>year = 2024, month = 3, day = 5\<rparr> ''Sample'' ''Ravi''
      0 0 1 scenario_store
     = ((True, ''Sale record #4 added successfully''),
        \<lparr>sales_table = scenario @ [free_sample], sqlite_sequence = 4\<rparr>)"
    by (simp add: add_sale_record_outcome scenario_next_rowid free_sample_def)
       (simp add: scenario_store_def)
  have t: "trend_data Monthly [free_sample]
      = [\<lparr>period = Text_key ''2024-03'', trend_sales = 0, trend_profit = 0,
           trend_quantity = 1, transactions = 1\<rparr>]"
    by (simp add: trend_by_def groupby_def free_sample_month retag_def trend_agg_def)
       (simp add: free_sample_def)
  have g: "map product_agg (groupby product_col [free_sample])
      = [\<lparr>product_name = ''Sample'', product_sales_sum = 0, product_profit_sum = 0,
           product_quantity_sum = 1\<rparr>]"
    by (simp add: groupby_def product_agg_def free_sample_def)
  have "map trend_sales (trend_data Monthly [free_sample]) = [0]"
    "map trend_profit_margin (trend_data Monthly [free_sample]) = [NaN]"
    unfolding t by (simp_all add: trend_profit_margin_def truediv_def times100_def)
  moreover have "map profit_margin (profit_analysis [free_sample]) = [NaN]"
    "map profit_margin (product_sales [free_sample]) = [NaN]"
    unfolding profit_analysis_def product_sales_def g
    by (simp_all add: nlargest_def profit_margin_def truediv_def times100_def)
  moreover have "kpi_profit_margin [free_sample] = Finite 0"
    by (simp add: kpi_profit_margin_def free_sample_def)
  ultimately show ?thesis using a by simp
qed

end
